theory Spec2Isabelle
  imports Complex_Main "HOL-Library.Log_Nat"
begin

section \<open>Numbers: IEEE 754 binary64 as the engine computes them\<close>

text \<open>
  Every number of the program is a double.  A finite double is kept as sign, integer
  significand and exponent of the last place: \<open>Fin s m e\<close> stands for
  \<open>(if s then -1 else 1) * m * 2 ^ e\<close>, with \<open>m < 2 ^ 53\<close>, \<open>- 1074 \<le> e \<le> 971\<close>, and
  \<open>2 ^ 52 \<le> m\<close> unless \<open>e = - 1074\<close> (subnormals and the two zeros \<open>Fin s 0 (- 1074)\<close>).
  There is one \<open>NaN\<close>, as a script can not tell two of them apart.  The arithmetic
  operations compute the exact result and round it to nearest, ties to even.
\<close>

datatype jsnum = NaN | Infinity bool | Fin bool nat int

definition js_zero :: "bool \<Rightarrow> jsnum" where
  "js_zero s = Fin s 0 (- 1074)"

definition js_one :: jsnum where
  "js_one = Fin False (2 ^ 52) (- 52)"

fun is_nan :: "jsnum \<Rightarrow> bool" where
  "is_nan NaN = True"
| "is_nan _ = False"

fun is_zero :: "jsnum \<Rightarrow> bool" where
  "is_zero (Fin s m e) = (m = 0)"
| "is_zero _ = False"

definition round_div :: "nat \<Rightarrow> nat \<Rightarrow> nat" where
  \<comment> \<open>\<open>n / d\<close> rounded to the nearest integer, ties to even\<close>
  "round_div n d =
     (let f = n div d; r = n mod d
      in if 2 * r < d then f else if d < 2 * r then f + 1
         else if even f then f else f + 1)"

definition ilog2_frac :: "nat \<Rightarrow> nat \<Rightarrow> int" where
  \<comment> \<open>the binary exponent of \<open>p / d\<close>: the \<open>b\<close> with \<open>2 ^ b \<le> p / d < 2 ^ (b + 1)\<close>\<close>
  "ilog2_frac p d =
     (let b = bitlen (int p) - bitlen (int d)
      in if (if 0 \<le> b then d * 2 ^ nat b \<le> p else d \<le> p * 2 ^ nat (- b)) then b else b - 1)"

definition round_frac :: "bool \<Rightarrow> nat \<Rightarrow> nat \<Rightarrow> int \<Rightarrow> jsnum" where
  \<comment> \<open>the double nearest to \<open>\<plusminus> (p / d) * 2 ^ k\<close>, for \<open>p\<close> and \<open>d\<close> positive\<close>
  "round_frac s p d k =
     (let e = ilog2_frac p d + k;
          t = max e (- 1022) - 52;
          m = (if t \<le> k then round_div (p * 2 ^ nat (k - t)) d
               else round_div p (d * 2 ^ nat (t - k)))
      in if m = 0 then js_zero s
         else if m = 2 ^ 53 then (if 970 < t then Infinity s else Fin s (2 ^ 52) (t + 1))
         else if 971 < t then Infinity s
         else Fin s m t)"

definition signed :: "bool \<Rightarrow> nat \<Rightarrow> int" where
  "signed s m = (if s then - int m else int m)"

definition num_of_nat :: "nat \<Rightarrow> jsnum" where
  "num_of_nat n = (if n = 0 then js_zero False else round_frac False n 1 0)"

fun fneg :: "jsnum \<Rightarrow> jsnum" where
  "fneg NaN = NaN"
| "fneg (Infinity s) = Infinity (\<not> s)"
| "fneg (Fin s m e) = Fin (\<not> s) m e"

fun fadd :: "jsnum \<Rightarrow> jsnum \<Rightarrow> jsnum" where
  "fadd NaN _ = NaN"
| "fadd _ NaN = NaN"
| "fadd (Infinity s) (Infinity s') = (if s = s' then Infinity s else NaN)"
| "fadd (Infinity s) _ = Infinity s"
| "fadd _ (Infinity s) = Infinity s"
| "fadd (Fin s1 m1 e1) (Fin s2 m2 e2) =
     (if m1 = 0 \<and> m2 = 0 then js_zero (s1 \<and> s2)
      else if m1 = 0 then Fin s2 m2 e2
      else if m2 = 0 then Fin s1 m1 e1
      else let e = min e1 e2;
               a = signed s1 m1 * 2 ^ nat (e1 - e) + signed s2 m2 * 2 ^ nat (e2 - e)
           in if a = 0 then js_zero False else round_frac (a < 0) (nat \<bar>a\<bar>) 1 e)"

definition fsub :: "jsnum \<Rightarrow> jsnum \<Rightarrow> jsnum" where
  "fsub x y = fadd x (fneg y)"

fun fmul :: "jsnum \<Rightarrow> jsnum \<Rightarrow> jsnum" where
  "fmul NaN _ = NaN"
| "fmul _ NaN = NaN"
| "fmul (Infinity s) (Infinity s') = Infinity (s \<noteq> s')"
| "fmul (Infinity s) (Fin s' m e) = (if m = 0 then NaN else Infinity (s \<noteq> s'))"
| "fmul (Fin s m e) (Infinity s') = (if m = 0 then NaN else Infinity (s \<noteq> s'))"
| "fmul (Fin s1 m1 e1) (Fin s2 m2 e2) =
     (if m1 = 0 \<or> m2 = 0 then js_zero (s1 \<noteq> s2)
      else round_frac (s1 \<noteq> s2) (m1 * m2) 1 (e1 + e2))"

fun fdiv :: "jsnum \<Rightarrow> jsnum \<Rightarrow> jsnum" where
  "fdiv NaN _ = NaN"
| "fdiv _ NaN = NaN"
| "fdiv (Infinity s) (Infinity s') = NaN"
| "fdiv (Infinity s) (Fin s' m e) = Infinity (s \<noteq> s')"
| "fdiv (Fin s m e) (Infinity s') = js_zero (s \<noteq> s')"
| "fdiv (Fin s1 m1 e1) (Fin s2 m2 e2) =
     (if m2 = 0 then (if m1 = 0 then NaN else Infinity (s1 \<noteq> s2))
      else if m1 = 0 then js_zero (s1 \<noteq> s2)
      else round_frac (s1 \<noteq> s2) m1 m2 (e1 - e2))"

function isqrt :: "nat \<Rightarrow> nat" where
  "isqrt n = (if n < 2 then n
              else let r = 2 * isqrt (n div 4) in if (r + 1) * (r + 1) \<le> n then r + 1 else r)"
  by pat_completeness auto
termination
  by (relation "measure id") auto

declare isqrt.simps [simp del]

text \<open>
  \<open>Math.sqrt\<close>, correctly rounded: the integer square root of the significand scaled by
  \<open>2 ^ 108\<close> has more than 53 bits, and one more bit records whether it is exact.
\<close>

fun fsqrt :: "jsnum \<Rightarrow> jsnum" where
  "fsqrt NaN = NaN"
| "fsqrt (Infinity s) = (if s then NaN else Infinity False)"
| "fsqrt (Fin s m e) =
     (if m = 0 then js_zero s
      else if s then NaN
      else let m' = (if even e then m else 2 * m);
               e' = (if even e then e else e - 1);
               n = m' * 2 ^ 108;
               r = isqrt n;
               p = 2 * r + (if r * r = n then 0 else 1)
           in round_frac False p 1 (e' div 2 - 55))"

text \<open>The comparisons \<open><\<close> and \<open>>=\<close> of the language: false when an operand is \<open>NaN\<close>.\<close>

fun flt :: "jsnum \<Rightarrow> jsnum \<Rightarrow> bool" where
  "flt NaN _ = False"
| "flt _ NaN = False"
| "flt (Infinity s) (Infinity s') = (s \<and> \<not> s')"
| "flt (Infinity s) (Fin s' m e) = s"
| "flt (Fin s m e) (Infinity s') = (\<not> s')"
| "flt (Fin s1 m1 e1) (Fin s2 m2 e2) =
     (let e = min e1 e2
      in signed s1 m1 * 2 ^ nat (e1 - e) < signed s2 m2 * 2 ^ nat (e2 - e))"

definition fge :: "jsnum \<Rightarrow> jsnum \<Rightarrow> bool" where
  "fge x y = (\<not> is_nan x \<and> \<not> is_nan y \<and> \<not> flt x y)"

section \<open>Values, records and the engine's conversions\<close>

text \<open>
  A record of a dataset is a plain object holding scalars.  \<open>VBuiltin k\<close> is the member
  \<open>k\<close> of \<open>Object.prototype\<close>, which a read of a key that the record does not own
  reaches through the prototype chain: an object, so truthy, not a number and not missing.
\<close>

datatype jsval = VUndef | VNull | VBool bool | VNum jsnum | VStr string | VBuiltin string

type_synonym obj = "(string \<times> jsval) list"

definition objectPrototypeKeys :: "string list" where
  "objectPrototypeKeys =
     [''constructor'', ''__defineGetter__'', ''__defineSetter__'', ''hasOwnProperty'',
      ''__lookupGetter__'', ''__lookupSetter__'', ''isPrototypeOf'',
      ''propertyIsEnumerable'', ''toString'', ''valueOf'', ''__proto__'',
      ''toLocaleString'']"

definition get_prop :: "obj \<Rightarrow> string \<Rightarrow> jsval" where
  \<comment> \<open>\<open>d[k]\<close> on a record\<close>
  "get_prop d k =
     (case map_of d k of
        Some v \<Rightarrow> v
      | None \<Rightarrow> if k \<in> set objectPrototypeKeys then VBuiltin k else VUndef)"

text \<open>
  The conversions between strings and numbers are the engine's (\<open>StringToNumber\<close>,
  \<open>Number::toString\<close>, the source text of a built-in function); the program only calls
  them, so they are parameters of the model.
\<close>

record runtime =
  string_to_number :: "string \<Rightarrow> jsnum"
  number_to_string :: "jsnum \<Rightarrow> string"
  builtin_to_string :: "string \<Rightarrow> string"

fun to_number :: "runtime \<Rightarrow> jsval \<Rightarrow> jsnum" where
  "to_number rt VUndef = NaN"
| "to_number rt VNull = js_zero False"
| "to_number rt (VBool b) = (if b then js_one else js_zero False)"
| "to_number rt (VNum x) = x"
| "to_number rt (VStr s) = string_to_number rt s"
| "to_number rt (VBuiltin k) = NaN"

fun truthy :: "jsval \<Rightarrow> bool" where
  "truthy VUndef = False"
| "truthy VNull = False"
| "truthy (VBool b) = b"
| "truthy (VNum x) = (\<not> is_nan x \<and> \<not> is_zero x)"
| "truthy (VStr s) = (s \<noteq> [])"
| "truthy (VBuiltin k) = True"

definition or_zero :: "jsnum option \<Rightarrow> jsnum" where
  \<comment> \<open>\<open>x || 0\<close> for \<open>x\<close> a number or \<open>undefined\<close> (\<open>None\<close>)\<close>
  "or_zero x =
     (case x of
        None \<Rightarrow> js_zero False
      | Some v \<Rightarrow> if is_nan v \<or> is_zero v then js_zero False else v)"

section \<open>The library's aggregates\<close>

text \<open>
  \<open>d3.mean\<close>, \<open>d3.median\<close> and \<open>d3.deviation\<close> of d3-array.  Each skips a value that is
  \<open>null\<close> or \<open>undefined\<close> or whose conversion to a number is \<open>NaN\<close>
  (\<open>value != null && (value = +value) >= value\<close>) and returns \<open>undefined\<close>, here \<open>None\<close>,
  when too few values are left.
\<close>

definition is_numeric :: "runtime \<Rightarrow> jsval \<Rightarrow> bool" where
  \<comment> \<open>\<open>value != null && (value = +value) >= value\<close>\<close>
  "is_numeric rt v = (v \<noteq> VNull \<and> v \<noteq> VUndef \<and> fge (to_number rt v) (to_number rt v))"

definition numbers :: "runtime \<Rightarrow> jsval list \<Rightarrow> jsnum list" where
  "numbers rt vs = map (to_number rt) (filter (is_numeric rt) vs)"

definition d3_mean :: "runtime \<Rightarrow> jsval list \<Rightarrow> jsnum option" where
  "d3_mean rt vs =
     (let xs = numbers rt vs
      in if xs = [] then None
         else Some (fdiv (fold (\<lambda>x acc. fadd acc x) xs (js_zero False))
                      (num_of_nat (length xs))))"

fun insort_num :: "jsnum \<Rightarrow> jsnum list \<Rightarrow> jsnum list" where
  "insort_num x [] = [x]"
| "insort_num x (y # ys) = (if flt y x then y # insort_num x ys else x # y # ys)"

definition sort_nums :: "jsnum list \<Rightarrow> jsnum list" where
  "sort_nums xs = foldr insort_num xs []"

definition d3_median :: "runtime \<Rightarrow> jsval list \<Rightarrow> jsnum option" where
  \<comment> \<open>\<open>quantile(values, 0.5)\<close>: \<open>i = (n - 1) * 0.5\<close>, \<open>i0 = floor i\<close>, and
      \<open>value0 + (value1 - value0) * (i - i0)\<close> on the sorted numbers\<close>
  "d3_median rt vs =
     (let xs = sort_nums (numbers rt vs); n = length xs
      in if n = 0 then None
         else if n < 2 then Some (xs ! 0)
         else let i0 = (n - 1) div 2;
                  frac = (if even (n - 1) then js_zero False else Fin False (2 ^ 52) (- 53));
                  value0 = xs ! i0;
                  value1 = xs ! (i0 + 1)
              in Some (fadd value0 (fmul (fsub value1 value0) frac)))"

definition variance_step :: "jsnum \<Rightarrow> nat \<times> jsnum \<times> jsnum \<Rightarrow> nat \<times> jsnum \<times> jsnum" where
  \<comment> \<open>\<open>delta = value - mean; mean += delta / ++count; sum += delta * (value - mean)\<close>,
      the state being \<open>(count, mean, sum)\<close>\<close>
  "variance_step v st =
     (case st of (count, mean, acc) \<Rightarrow>
        let delta = fsub v mean;
            mean' = fadd mean (fdiv delta (num_of_nat (count + 1)));
            acc' = fadd acc (fmul delta (fsub v mean'))
        in (count + 1, mean', acc'))"

definition d3_variance :: "runtime \<Rightarrow> jsval list \<Rightarrow> jsnum option" where
  "d3_variance rt vs =
     (case fold variance_step (numbers rt vs) (0, js_zero False, js_zero False) of
        (count, mean, acc) \<Rightarrow>
          if 1 < count then Some (fdiv acc (num_of_nat (count - 1))) else None)"

definition d3_deviation :: "runtime \<Rightarrow> jsval list \<Rightarrow> jsnum option" where
  \<comment> \<open>\<open>v ? Math.sqrt(v) : v\<close>\<close>
  "d3_deviation rt vs =
     (case d3_variance rt vs of
        None \<Rightarrow> None
      | Some v \<Rightarrow> if is_nan v \<or> is_zero v then Some v else Some (fsqrt v))"

section \<open>Basic statistics\<close>

definition calculateMean :: "runtime \<Rightarrow> obj list \<Rightarrow> string \<Rightarrow> jsnum" where
  "calculateMean rt data variable = or_zero (d3_mean rt (map (\<lambda>d. get_prop d variable) data))"

definition calculateMedian :: "runtime \<Rightarrow> obj list \<Rightarrow> string \<Rightarrow> jsnum" where
  "calculateMedian rt data variable =
     or_zero (d3_median rt (map (\<lambda>d. get_prop d variable) data))"

definition calculateStandardDeviation :: "runtime \<Rightarrow> obj list \<Rightarrow> string \<Rightarrow> jsnum" where
  "calculateStandardDeviation rt data variable =
     or_zero (d3_deviation rt (map (\<lambda>d. get_prop d variable) data))"

section \<open>Correlation matrix\<close>

record correlation_matrix =
  cm_variables :: "string list"
  cm_matrix :: "jsnum list list"

definition correlation_step ::
  "runtime \<Rightarrow> jsval list \<Rightarrow> jsval list \<Rightarrow> jsnum \<Rightarrow> jsnum \<Rightarrow> nat \<Rightarrow>
     jsnum \<times> jsnum \<times> jsnum \<Rightarrow> jsnum \<times> jsnum \<times> jsnum" where
  \<comment> \<open>the body of the loop over \<open>k\<close>\<close>
  "correlation_step rt xValues yValues xMean yMean k acc =
     (case acc of (numerator, denominatorX, denominatorY) \<Rightarrow>
        let xDiff = fsub (to_number rt (xValues ! k)) xMean;
            yDiff = fsub (to_number rt (yValues ! k)) yMean
        in (fadd numerator (fmul xDiff yDiff),
            fadd denominatorX (fmul xDiff xDiff),
            fadd denominatorY (fmul yDiff yDiff)))"

definition correlation :: "runtime \<Rightarrow> obj list \<Rightarrow> string \<Rightarrow> string \<Rightarrow> jsnum" where
  \<comment> \<open>the \<open>else\<close> branch, for the fields \<open>variables[i]\<close> and \<open>variables[j]\<close>\<close>
  "correlation rt data vi vj =
     (let xValues = map (\<lambda>d. get_prop d vi) data;
          yValues = map (\<lambda>d. get_prop d vj) data;
          xMean = or_zero (d3_mean rt xValues);
          yMean = or_zero (d3_mean rt yValues)
      in case fold (correlation_step rt xValues yValues xMean yMean) [0..<length data]
                (js_zero False, js_zero False, js_zero False) of
           (numerator, denominatorX, denominatorY) \<Rightarrow>
             fdiv numerator (fsqrt (fmul denominatorX denominatorY)))"

definition calculateCorrelationMatrix ::
  "runtime \<Rightarrow> obj list \<Rightarrow> string list \<Rightarrow> correlation_matrix" where
  "calculateCorrelationMatrix rt data variables =
     (let n = length variables;
          matrix = replicate n (replicate n (js_zero False));
          matrix = fold (\<lambda>i. fold (\<lambda>j matrix.
                     if i = j then matrix[i := (matrix ! i)[j := js_one]]
                     else matrix[i := (matrix ! i)[j :=
                            correlation rt data (variables ! i) (variables ! j)]])
                     [0..<n]) [0..<n] matrix
      in \<lparr>cm_variables = variables, cm_matrix = matrix\<rparr>)"


definition matrix_entry :: "runtime \<Rightarrow> obj list \<Rightarrow> string list \<Rightarrow> nat \<Rightarrow> nat \<Rightarrow> jsnum" where
  \<comment> \<open>what the nested loop stores at \<open>matrix[i][j]\<close>\<close>
  "matrix_entry rt data variables i j =
     (if i = j then js_one else correlation rt data (variables ! i) (variables ! j))"

section \<open>Own properties in the engine's order\<close>

text \<open>
  An object enumerates its own keys with the array indices first, in ascending numeric
  order, and then the other strings in the order of their creation.  An array index is
  the canonical decimal form of an integer from \<open>0\<close> to \<open>2 ^ 32 - 2\<close>.
\<close>

definition is_digit :: "char \<Rightarrow> bool" where
  "is_digit c = (48 \<le> (of_char c :: nat) \<and> (of_char c :: nat) \<le> 57)"

definition digits_value :: "string \<Rightarrow> nat" where
  "digits_value s = foldl (\<lambda>n c. 10 * n + ((of_char c :: nat) - 48)) 0 s"

definition array_index :: "string \<Rightarrow> nat option" where
  "array_index k =
     (if k \<noteq> [] \<and> list_all is_digit k \<and> (k = ''0'' \<or> hd k \<noteq> CHR ''0'')
         \<and> digits_value k < 2 ^ 32 - 1
      then Some (digits_value k) else None)"

fun insert_index :: "nat \<Rightarrow> string \<times> 'a \<Rightarrow> (string \<times> 'a) list \<Rightarrow> (string \<times> 'a) list" where
  "insert_index i kv [] = [kv]"
| "insert_index i kv (p # ps) =
     (case array_index (fst p) of
        Some j \<Rightarrow> if j < i then p # insert_index i kv ps else kv # p # ps
      | None \<Rightarrow> kv # p # ps)"

definition set_prop :: "(string \<times> 'a) list \<Rightarrow> string \<Rightarrow> 'a \<Rightarrow> (string \<times> 'a) list" where
  \<comment> \<open>\<open>o[k] = v\<close> on own properties: an existing key keeps its place\<close>
  "set_prop ps k v =
     (if k \<in> fst ` set ps then map (\<lambda>p. if fst p = k then (k, v) else p) ps
      else case array_index k of
             Some i \<Rightarrow> insert_index i (k, v) ps
           | None \<Rightarrow> ps @ [(k, v)])"

fun to_property_key :: "runtime \<Rightarrow> jsval \<Rightarrow> string" where
  "to_property_key rt VUndef = ''undefined''"
| "to_property_key rt VNull = ''null''"
| "to_property_key rt (VBool b) = (if b then ''true'' else ''false'')"
| "to_property_key rt (VNum x) = number_to_string rt x"
| "to_property_key rt (VStr s) = s"
| "to_property_key rt (VBuiltin k) = builtin_to_string rt k"

section \<open>Reshaping\<close>

text \<open>
  \<open>longToWide\<close> collects the rows in the object \<open>result\<close>, keyed by the id.  When the key
  names a member of \<open>Object.prototype\<close> that \<open>result\<close> does not own, \<open>result[idValue]\<close> is
  that member and the assignment goes to it; when the variable's key is \<open>__proto__\<close>,
  the assignment runs the prototype setter of the row's object.  Both act on objects
  shared with the rest of the program, which the model does not hold: it returns
  \<open>Inl\<close> there.
\<close>

datatype escape = PrototypeAccess string

definition longToWide_row ::
  "runtime \<Rightarrow> string \<Rightarrow> string \<Rightarrow> string \<Rightarrow> obj \<Rightarrow> (string \<times> obj) list \<Rightarrow>
     escape + (string \<times> obj) list" where
  \<comment> \<open>the body of \<open>data.forEach\<close>\<close>
  "longToWide_row rt id' variable value row result =
     (let idValue = to_property_key rt (get_prop row id');
          column = to_property_key rt (get_prop row variable)
      in if idValue \<notin> fst ` set result \<and> idValue \<in> set objectPrototypeKeys
         then Inl (PrototypeAccess idValue)
         else let result = (if idValue \<notin> fst ` set result then set_prop result idValue []
                            else result)
              in if column = ''__proto__'' then Inl (PrototypeAccess column)
                 else Inr (set_prop result idValue
                        (set_prop (the (map_of result idValue)) column (get_prop row value))))"

fun longToWide_loop ::
  "runtime \<Rightarrow> string \<Rightarrow> string \<Rightarrow> string \<Rightarrow> obj list \<Rightarrow> (string \<times> obj) list \<Rightarrow>
     escape + (string \<times> obj) list" where
  "longToWide_loop rt id' variable value [] result = Inr result"
| "longToWide_loop rt id' variable value (row # rows) result =
     (case longToWide_row rt id' variable value row result of
        Inl e \<Rightarrow> Inl e
      | Inr result' \<Rightarrow> longToWide_loop rt id' variable value rows result')"

definition longToWide ::
  "runtime \<Rightarrow> obj list \<Rightarrow> string \<Rightarrow> string \<Rightarrow> string \<Rightarrow> escape + obj list" where
  "longToWide rt data id' variable value =
     (case longToWide_loop rt id' variable value data [] of
        Inl e \<Rightarrow> Inl e
      | Inr result \<Rightarrow> Inr (map snd result))"

definition wideToLong :: "obj list \<Rightarrow> string \<Rightarrow> string list \<Rightarrow> obj list" where
  "wideToLong data idColumn valueColumns =
     fold (\<lambda>row result.
        let idValue = get_prop row idColumn
        in fold (\<lambda>column result.
             result @ [set_prop (set_prop (set_prop [] idColumn idValue)
                                   ''variable'' (VStr column))
                         ''value'' (get_prop row column)])
             valueColumns result)
       data []"

section \<open>Frequencies\<close>

text \<open>
  \<open>d3.rollup\<close> keys its map by the value of the field, compared as a \<open>Map\<close> does
  (\<open>NaN\<close> equals itself and the two zeros are one key), keeps the keys in the order of
  their first occurrence, and here reduces each group to its length.
\<close>

fun same_value_zero :: "jsval \<Rightarrow> jsval \<Rightarrow> bool" where
  "same_value_zero (VNum x) (VNum y) = (x = y \<or> (is_zero x \<and> is_zero y))"
| "same_value_zero v w = (v = w)"

fun rollup_add :: "jsval \<Rightarrow> (jsval \<times> nat) list \<Rightarrow> (jsval \<times> nat) list" where
  "rollup_add v [] = [(v, 1)]"
| "rollup_add v ((k, c) # groups) =
     (if same_value_zero k v then (k, c + 1) # groups else (k, c) # rollup_add v groups)"

definition rollup_count :: "jsval list \<Rightarrow> (jsval \<times> nat) list" where
  "rollup_count vs = fold rollup_add vs []"

record frequency =
  freq_value :: jsval
  freq_count :: nat
  freq_percentage :: jsnum

definition calculateFrequencies :: "obj list \<Rightarrow> string \<Rightarrow> frequency list" where
  \<comment> \<open>\<open>sort\<close> is stable; the comparison \<open>b.count - a.count\<close> orders by count, descending\<close>
  "calculateFrequencies data variable =
     (let counts = rollup_count (map (\<lambda>d. get_prop d variable) data);
          total = length data
      in sort_key (\<lambda>e. - int (freq_count e))
           (map (\<lambda>(v, c). \<lparr>freq_value = v, freq_count = c,
                   freq_percentage = fmul (fdiv (num_of_nat c) (num_of_nat total))
                                       (num_of_nat 100)\<rparr>) counts))"

section \<open>Missing data\<close>

definition is_missing :: "jsval \<Rightarrow> bool" where
  \<comment> \<open>\<open>v === null || v === undefined || v === ''\<close>\<close>
  "is_missing v = (v = VNull \<or> v = VUndef \<or> v = VStr [])"

record missing_report =
  mr_variable :: string
  mr_count :: nat
  mr_percentage :: jsnum

definition countMissingValues :: "obj list \<Rightarrow> missing_report list" where
  "countMissingValues data =
     (if length data = 0 then []
      else let variables = map fst (data ! 0)
           in sort_key (\<lambda>r. - int (mr_count r))
                (map (\<lambda>variable.
                   let missingCount = length (filter (\<lambda>d. is_missing (get_prop d variable)) data)
                   in \<lparr>mr_variable = variable, mr_count = missingCount,
                       mr_percentage = fmul (fdiv (num_of_nat missingCount)
                                               (num_of_nat (length data)))
                                         (num_of_nat 100)\<rparr>)
                   variables))"

text \<open>
  \<open>imputeMissingValues\<close> writes into objects, so it runs on a store: \<open>h ! a\<close> is the
  object at the address \<open>a\<close>, a dataset is the list of the addresses of its records, and
  a new object takes the next address.  \<open>JSON.parse(JSON.stringify(data))\<close> builds one new
  object for each record: a property holding \<open>undefined\<close> or a function is left out, a
  number that is \<open>NaN\<close> or infinite becomes \<open>null\<close>, and minus zero becomes zero.
\<close>

type_synonym store = "obj list"

fun json_value :: "jsval \<Rightarrow> jsval option" where
  "json_value VUndef = None"
| "json_value (VBuiltin k) = None"
| "json_value (VNum NaN) = Some VNull"
| "json_value (VNum (Infinity s)) = Some VNull"
| "json_value (VNum (Fin s m e)) = Some (VNum (if m = 0 then js_zero False else Fin s m e))"
| "json_value v = Some v"

definition json_clone :: "obj \<Rightarrow> obj" where
  "json_clone d =
     fold (\<lambda>(k, v) d'. case json_value v of None \<Rightarrow> d' | Some v' \<Rightarrow> set_prop d' k v') d []"

definition deref :: "store \<Rightarrow> nat list \<Rightarrow> obj list" where
  "deref h data = map (\<lambda>a. h ! a) data"

definition imputed :: "string \<Rightarrow> jsval \<Rightarrow> obj \<Rightarrow> obj" where
  \<comment> \<open>\<open>if (d[variable] is missing) d[variable] = valueToImpute\<close>, as a change of one object\<close>
  "imputed variable valueToImpute d =
     (if is_missing (get_prop d variable) then set_prop d variable valueToImpute else d)"

definition impute_row :: "string \<Rightarrow> jsval \<Rightarrow> nat \<Rightarrow> store \<Rightarrow> store" where
  \<comment> \<open>the body of \<open>newData.forEach\<close>, on the record at the address \<open>a\<close>\<close>
  "impute_row variable valueToImpute a h = h[a := imputed variable valueToImpute (h ! a)]"

definition valueToImpute :: "runtime \<Rightarrow> obj list \<Rightarrow> string \<Rightarrow> string \<Rightarrow> jsval" where
  \<comment> \<open>the chain \<open>if (method === 'mean') \<dots> else if (method === 'mode') \<dots>\<close>, which leaves
      the variable \<open>undefined\<close> when no branch is taken; \<open>present\<close> is the filtered data\<close>
  "valueToImpute rt present variable method =
     (if method = ''mean'' then VNum (calculateMean rt present variable)
      else if method = ''median'' then VNum (calculateMedian rt present variable)
      else if method = ''mode'' then
        (case calculateFrequencies present variable of
           [] \<Rightarrow> VNum (js_zero False)
         | e # _ \<Rightarrow> if truthy (freq_value e) then freq_value e else VNum (js_zero False))
      else VUndef)"

definition imputeMissingValues ::
  "runtime \<Rightarrow> store \<Rightarrow> nat list \<Rightarrow> string \<Rightarrow> string option \<Rightarrow> nat list \<times> store" where
  \<comment> \<open>\<open>method\<close> is \<open>None\<close> when the argument is left out, and then \<open>'mean'\<close>\<close>
  "imputeMissingValues rt h data variable method =
     (let method = (case method of None \<Rightarrow> ''mean'' | Some m \<Rightarrow> m);
          rows = deref h data;
          newData = [length h ..< length h + length data];
          h' = h @ map json_clone rows;
          present = filter (\<lambda>d. \<not> is_missing (get_prop d variable)) rows
      in (newData,
          fold (impute_row variable (valueToImpute rt present variable method)) newData h'))"

text \<open>
  The language's \<open>===\<close> on the values of the model, and the values that
  \<open>JSON.stringify\<close> writes as they are: \<open>null\<close>, booleans, strings and finite numbers.
\<close>

fun strict_equal :: "jsval \<Rightarrow> jsval \<Rightarrow> bool" where
  "strict_equal (VNum x) (VNum y) = (\<not> is_nan x \<and> (x = y \<or> (is_zero x \<and> is_zero y)))"
| "strict_equal v w = (v = w)"

fun json_scalar :: "jsval \<Rightarrow> bool" where
  "json_scalar VNull = True"
| "json_scalar (VBool b) = True"
| "json_scalar (VStr s) = True"
| "json_scalar (VNum (Fin s m e)) = True"
| "json_scalar v = False"

definition json_record :: "obj \<Rightarrow> bool" where
  \<comment> \<open>an object (its keys are distinct) whose values are such scalars\<close>
  "json_record d = (distinct (map fst d) \<and> list_all (\<lambda>p. json_scalar (snd p)) d)"

section \<open>A runtime for the examples\<close>

text \<open>
  The examples need the engine's conversions at a few strings.  This instance reads the
  empty string and strings of decimal digits as the engine does and every other string
  as \<open>NaN\<close> (an engine also reads signs, fractions, exponents, radix prefixes,
  \<open>Infinity\<close> and surrounding white space); it prints \<open>NaN\<close>, the infinities and the
  integers below \<open>10 ^ 21\<close> as the engine does, and no example prints another number or
  a built-in.
\<close>

function decimal :: "nat \<Rightarrow> string" where
  "decimal n = (if n < 10 then [char_of (48 + n)] else decimal (n div 10) @ [char_of (48 + n mod 10)])"
  by pat_completeness auto
termination
  by (relation "measure id") auto

declare decimal.simps [simp del]

definition example_runtime :: runtime where
  "example_runtime =
     \<lparr>string_to_number = (\<lambda>s. if s = [] then js_zero False
                                else if list_all is_digit s then num_of_nat (digits_value s)
                                else NaN),
      number_to_string = (\<lambda>x. case x of
                                  NaN \<Rightarrow> ''NaN''
                                | Infinity s \<Rightarrow> (if s then ''-Infinity'' else ''Infinity'')
                                | Fin s m e \<Rightarrow>
                                    if m = 0 then ''0''
                                    else if 0 \<le> e \<and> m * 2 ^ nat e < 10 ^ 21
                                    then (if s then ''-'' else []) @ decimal (m * 2 ^ nat e)
                                    else if e < 0 \<and> m mod 2 ^ nat (- e) = 0
                                    then (if s then ''-'' else []) @ decimal (m div 2 ^ nat (- e))
                                    else []),
      builtin_to_string = (\<lambda>k. [])\<rparr>"

section \<open>Evaluation of the arithmetic on numerals\<close>

lemma bitlen_step: "0 < x \<Longrightarrow> bitlen x = bitlen (x div 2) + 1"
  by (subst compute_bitlen) simp

lemma bitlen_stop: "x \<le> 0 \<Longrightarrow> bitlen x = 0"
  by (subst compute_bitlen) simp

lemma isqrt_stop: "n < 2 \<Longrightarrow> isqrt n = n"
  by (simp add: isqrt.simps)

lemma isqrt_step:
  "2 \<le> n \<Longrightarrow> isqrt n =
     (let r = 2 * isqrt (n div 4) in if (r + 1) * (r + 1) \<le> n then r + 1 else r)"
proof -
  assume "2 \<le> n"
  then have "\<not> n < 2" by simp
  then show ?thesis by (subst isqrt.simps) (simp only: if_False)
qed

lemma round_div_pow2:
  "round_div n (2 ^ j) =
     (let f = drop_bit j n; r = take_bit j n
      in if 2 * r < 2 ^ j then f else if 2 ^ j < 2 * r then f + 1
         else if even f then f else f + 1)"
  by (simp add: round_div_def drop_bit_eq_div take_bit_eq_mod)

lemma round_div_one: "round_div n 1 = n"
  by (simp add: round_div_def)

lemma ilog2_frac_one: "0 < p \<Longrightarrow> ilog2_frac p 1 = bitlen (int p) - 1"
proof -
  assume p: "0 < p"
  then have "1 \<le> bitlen (int p)"
    by (simp add: bitlen_alt_def)
  moreover have "2 ^ nat (bitlen (int p) - 1) \<le> int p"
    using bitlen_bounds [of "int p"] p by simp
  then have "2 ^ nat (bitlen (int p) - 1) \<le> p"
    by (metis of_nat_le_iff of_nat_numeral of_nat_power)
  ultimately show ?thesis
    by (simp add: ilog2_frac_def bitlen_stop bitlen_step)
qed

lemma round_frac_int:
  assumes "0 < p"
  shows "round_frac s p 1 k =
     (let e = bitlen (int p) - 1 + k;
          t = max e (- 1022) - 52;
          m = (if t \<le> k then p * 2 ^ nat (k - t)
               else let f = drop_bit (nat (t - k)) p; r = take_bit (nat (t - k)) p
                    in if 2 * r < 2 ^ nat (t - k) then f
                       else if 2 ^ nat (t - k) < 2 * r then f + 1
                       else if even f then f else f + 1)
      in if m = 0 then js_zero s
         else if m = 2 ^ 53 then (if 970 < t then Infinity s else Fin s (2 ^ 52) (t + 1))
         else if 971 < t then Infinity s
         else Fin s m t)"
  unfolding round_frac_def ilog2_frac_one [OF assms] round_div_one mult_1
    round_div_pow2 ..

lemmas round_frac_int_Suc = round_frac_int [unfolded One_nat_def]

lemmas num_eval = round_frac_int round_frac_int_Suc js_zero_def js_one_def signed_def fsub_def
  num_of_nat_def Let_def bitlen_step bitlen_stop isqrt_stop isqrt_step

lemmas num_eval_div = round_frac_def ilog2_frac_def round_div_def js_zero_def js_one_def
  signed_def fsub_def num_of_nat_def Let_def bitlen_step bitlen_stop

section \<open>The correlation matrix\<close>

lemma fmul_commute: "fmul x y = fmul y x"
proof (cases x; cases y)
  fix s1 m1 e1 s2 m2 e2
  assume xy: "x = Fin s1 m1 e1" "y = Fin s2 m2 e2"
  have "(s1 \<noteq> s2) = (s2 \<noteq> s1)" by auto
  then show ?thesis
    unfolding xy fmul.simps by (simp only: mult.commute [of m1 m2] add.commute [of e1 e2] disj_commute [of "m1 = 0"])
qed auto

lemma fold_update_upt:
  "k \<le> length xs \<Longrightarrow>
     fold (\<lambda>i xs. xs[i := g i (xs ! i)]) [0..<k] xs = map (\<lambda>i. g i (xs ! i)) [0..<k] @ drop k xs"
proof (induction k)
  case 0
  then show ?case by simp
next
  case (Suc k)
  then have k: "k < length xs" by simp
  have "fold (\<lambda>i xs. xs[i := g i (xs ! i)]) [0..<Suc k] xs =
          (map (\<lambda>i. g i (xs ! i)) [0..<k] @ drop k xs)[k := g k ((map (\<lambda>i. g i (xs ! i)) [0..<k] @ drop k xs) ! k)]"
    using Suc by simp
  also have "(map (\<lambda>i. g i (xs ! i)) [0..<k] @ drop k xs) ! k = xs ! k"
    using k by (simp add: nth_append)
  also have "(map (\<lambda>i. g i (xs ! i)) [0..<k] @ drop k xs)[k := g k (xs ! k)] =
          map (\<lambda>i. g i (xs ! i)) [0..<k] @ (drop k xs)[0 := g k (xs ! k)]"
    by (simp add: list_update_append)
  also have "(drop k xs)[0 := g k (xs ! k)] = g k (xs ! k) # drop (Suc k) xs"
    using k by (simp add: Cons_nth_drop_Suc [symmetric])
  finally show ?case by simp
qed

lemma fold_row_lift:
  "i < length m \<Longrightarrow>
     fold (\<lambda>j m. m[i := (m ! i)[j := f j]]) js m = m[i := fold (\<lambda>j row. row[j := f j]) js (m ! i)]"
  by (induction js arbitrary: m) simp_all

lemma fold_row_fill:
  "length row = n \<Longrightarrow> fold (\<lambda>j row. row[j := f j]) [0..<n] row = map f [0..<n]"
  using fold_update_upt [of n row "\<lambda>j _. f j"] by simp

lemma matrix_closed_form:
  "cm_matrix (calculateCorrelationMatrix rt data variables) =
     map (\<lambda>i. map (matrix_entry rt data variables i) [0..<length variables])
       [0..<length variables]"
proof -
  let ?n = "length variables"
  let ?f = "matrix_entry rt data variables"
  let ?m0 = "replicate ?n (replicate ?n (js_zero False))"
  have body: "(\<lambda>i. fold (\<lambda>j matrix.
                     if i = j then matrix[i := (matrix ! i)[j := js_one]]
                     else matrix[i := (matrix ! i)[j :=
                            correlation rt data (variables ! i) (variables ! j)]])
                     [0..<?n]) = (\<lambda>i. fold (\<lambda>j m. m[i := (m ! i)[j := ?f i j]]) [0..<?n])"
    by (intro ext arg_cong2 [where f = fold]) (auto simp: matrix_entry_def)
  have eq: "k \<le> length m \<Longrightarrow>
      fold (\<lambda>i. fold (\<lambda>j m. m[i := (m ! i)[j := ?f i j]]) js) [0..<k] m =
        fold (\<lambda>i m. m[i := fold (\<lambda>j row. row[j := ?f i j]) js (m ! i)]) [0..<k] m \<and>
      length (fold (\<lambda>i m. m[i := fold (\<lambda>j row. row[j := ?f i j]) js (m ! i)]) [0..<k] m) =
        length m" for k js and m :: "jsnum list list"
  proof (induction k)
    case 0
    then show ?case by simp
  next
    case (Suc k)
    then show ?case by (simp add: fold_row_lift)
  qed
  have "cm_matrix (calculateCorrelationMatrix rt data variables) =
          fold (\<lambda>i m. m[i := fold (\<lambda>j row. row[j := ?f i j]) [0..<?n] (m ! i)]) [0..<?n] ?m0"
    using eq [of ?n ?m0 "[0..<?n]"] by (simp add: calculateCorrelationMatrix_def body Let_def)
  also have "\<dots> = map (\<lambda>i. fold (\<lambda>j row. row[j := ?f i j]) [0..<?n] (?m0 ! i)) [0..<?n]"
    using fold_update_upt [of ?n ?m0 "\<lambda>i. fold (\<lambda>j row. row[j := ?f i j]) [0..<?n]"] by simp
  also have "\<dots> = map (\<lambda>i. map (?f i) [0..<?n]) [0..<?n]"
    by (rule map_cong) (simp_all add: fold_row_fill)
  finally show ?thesis .
qed

lemma swap_step:
  "correlation_step rt xs ys xm ym k (n, dx, dy) = (n', dx', dy') \<Longrightarrow>
     correlation_step rt ys xs ym xm k (n, dy, dx) = (n', dy', dx')"
  by (auto simp: correlation_step_def Let_def fmul_commute)

lemma swap_fold:
  "fold (correlation_step rt xs ys xm ym) ks (n, dx, dy) = (n', dx', dy') \<Longrightarrow>
     fold (correlation_step rt ys xs ym xm) ks (n, dy, dx) = (n', dy', dx')"
proof (induction ks arbitrary: n dx dy)
  case Nil
  then show ?case by simp
next
  case (Cons k ks)
  obtain n1 dx1 dy1 where st: "correlation_step rt xs ys xm ym k (n, dx, dy) = (n1, dx1, dy1)"
    by (cases "correlation_step rt xs ys xm ym k (n, dx, dy)") auto
  from Cons.prems st have "fold (correlation_step rt xs ys xm ym) ks (n1, dx1, dy1) = (n', dx', dy')"
    by simp
  then have "fold (correlation_step rt ys xs ym xm) ks (n1, dy1, dx1) = (n', dy', dx')"
    by (rule Cons.IH)
  with swap_step [OF st] show ?case by simp
qed

lemma correlation_commute: "correlation rt data vi vj = correlation rt data vj vi"
proof -
  let ?xs = "map (\<lambda>d. get_prop d vi) data"
  let ?ys = "map (\<lambda>d. get_prop d vj) data"
  let ?xm = "or_zero (d3_mean rt ?xs)"
  let ?ym = "or_zero (d3_mean rt ?ys)"
  let ?z = "js_zero False"
  obtain n dx dy where
    f: "fold (correlation_step rt ?xs ?ys ?xm ?ym) [0..<length data] (?z, ?z, ?z) = (n, dx, dy)"
    by (cases "fold (correlation_step rt ?xs ?ys ?xm ?ym) [0..<length data] (?z, ?z, ?z)") auto
  have "correlation rt data vi vj = fdiv n (fsqrt (fmul dx dy))"
    using f by (simp add: correlation_def)
  moreover have "correlation rt data vj vi = fdiv n (fsqrt (fmul dy dx))"
    using swap_fold [OF f] by (simp add: correlation_def)
  ultimately show ?thesis by (simp add: fmul_commute [of dx dy])
qed

lemma matrix_entry_sym: "matrix_entry rt data variables i j = matrix_entry rt data variables j i"
  by (auto simp: matrix_entry_def correlation_commute)

lemma correlation_empty: "correlation rt [] vi vj = NaN"
  by (simp add: correlation_def d3_mean_def numbers_def or_zero_def js_zero_def)

text \<open>
  Claim C3.  For every dataset and every list of fields, the matrix returned by
  \<open>calculateCorrelationMatrix\<close> holds 1 at every diagonal position \<open>(i, i)\<close>, and the
  entries at \<open>(i, j)\<close> and \<open>(j, i)\<close>, each computed by its own run of the loop, are the
  same value (the same double, or \<open>NaN\<close> at both places).
\<close>

theorem correlation_matrix_symmetric_unit_diagonal:
  assumes "i < length variables" and "j < length variables"
  shows "cm_matrix (calculateCorrelationMatrix rt data variables) ! i ! i = js_one \<and>
         cm_matrix (calculateCorrelationMatrix rt data variables) ! i ! j =
           cm_matrix (calculateCorrelationMatrix rt data variables) ! j ! i"
  using assms matrix_entry_sym [of rt data variables i j]
  by (simp add: matrix_closed_form) (simp add: matrix_entry_def)

theorem correlation_matrix_symmetric_unit_diagonal_witness:
  "(0::nat) < length [''x'', ''y''] \<and> (1::nat) < length [''x'', ''y''] \<and>
   cm_matrix (calculateCorrelationMatrix example_runtime
     [[(''x'', VNum js_one), (''y'', VStr ''12'')], [(''x'', VNull), (''y'', VNum js_one)]]
     [''x'', ''y'']) ! 0 ! 0 = js_one \<and>
   cm_matrix (calculateCorrelationMatrix example_runtime
     [[(''x'', VNum js_one), (''y'', VStr ''12'')], [(''x'', VNull), (''y'', VNum js_one)]]
     [''x'', ''y'']) ! 0 ! 1 =
   cm_matrix (calculateCorrelationMatrix example_runtime
     [[(''x'', VNum js_one), (''y'', VStr ''12'')], [(''x'', VNull), (''y'', VNum js_one)]]
     [''x'', ''y'']) ! 1 ! 0"
  using correlation_matrix_symmetric_unit_diagonal [of 0 "[''x'', ''y'']" 1 example_runtime
      "[[(''x'', VNum js_one), (''y'', VStr ''12'')], [(''x'', VNull), (''y'', VNum js_one)]]"]
  by simp

text \<open>
  Claim C10.  For the empty dataset and every list of fields, in particular every list of
  two or more distinct fields, \<open>calculateCorrelationMatrix\<close> returns a square matrix
  with 1 on the diagonal and \<open>NaN\<close> everywhere else: the sums are empty, and \<open>0 / 0\<close>
  is \<open>NaN\<close>.  The function has no failing branch.
\<close>

theorem correlation_matrix_of_empty_dataset:
  "calculateCorrelationMatrix rt [] variables =
     \<lparr>cm_variables = variables,
      cm_matrix = map (\<lambda>i. map (\<lambda>j. if i = j then js_one else NaN) [0..<length variables])
                    [0..<length variables]\<rparr>"
proof -
  have "cm_variables (calculateCorrelationMatrix rt [] variables) = variables"
    by (simp add: calculateCorrelationMatrix_def Let_def)
  moreover have "cm_matrix (calculateCorrelationMatrix rt [] variables) =
      map (\<lambda>i. map (\<lambda>j. if i = j then js_one else NaN) [0..<length variables])
        [0..<length variables]"
    by (simp add: matrix_closed_form matrix_entry_def correlation_empty cong: if_cong)
  ultimately show ?thesis
    by (intro correlation_matrix.equality) simp_all
qed

theorem correlation_matrix_of_empty_dataset_witness:
  "calculateCorrelationMatrix example_runtime [] [''x'', ''y''] =
     \<lparr>cm_variables = [''x'', ''y''], cm_matrix = [[js_one, NaN], [NaN, js_one]]\<rparr>"
  using correlation_matrix_of_empty_dataset [of example_runtime "[''x'', ''y'']"]
  by (simp add: upt_rec)

section \<open>The fallback of the aggregates\<close>

text \<open>
  Claim C6.  For every field, \<open>calculateMean\<close>, \<open>calculateMedian\<close> and
  \<open>calculateStandardDeviation\<close> return 0 on a dataset in which the field has no numeric
  value, the empty dataset among them.  A value is numeric as the library reads it: it
  is not \<open>null\<close> or \<open>undefined\<close>, and its conversion to a number is not \<open>NaN\<close>.
\<close>

theorem no_numeric_values_give_zero:
  assumes "\<forall>d \<in> set data. \<not> is_numeric rt (get_prop d field)"
  shows "calculateMean rt data field = js_zero False \<and>
         calculateMedian rt data field = js_zero False \<and>
         calculateStandardDeviation rt data field = js_zero False"
proof -
  have "filter (is_numeric rt) (map (\<lambda>d. get_prop d field) data) = []"
    using assms by (simp add: filter_empty_conv)
  then have "numbers rt (map (\<lambda>d. get_prop d field) data) = []"
    by (simp add: numbers_def)
  then show ?thesis
    by (simp add: calculateMean_def calculateMedian_def calculateStandardDeviation_def
        d3_mean_def d3_median_def d3_deviation_def d3_variance_def sort_nums_def or_zero_def)
qed

theorem no_numeric_values_give_zero_witness:
  "\<not> is_numeric example_runtime (get_prop [(''x'', VNull)] ''x'') \<and>
   \<not> is_numeric example_runtime (get_prop [(''y'', VNum js_one)] ''x'') \<and>
   \<not> is_numeric example_runtime (get_prop [(''x'', VStr ''abc'')] ''x'') \<and>
   calculateMean example_runtime
     [[(''x'', VNull)], [(''y'', VNum js_one)], [(''x'', VStr ''abc'')]] ''x'' = js_zero False \<and>
   calculateMedian example_runtime
     [[(''x'', VNull)], [(''y'', VNum js_one)], [(''x'', VStr ''abc'')]] ''x'' = js_zero False \<and>
   calculateStandardDeviation example_runtime
     [[(''x'', VNull)], [(''y'', VNum js_one)], [(''x'', VStr ''abc'')]] ''x'' = js_zero False"
proof -
  have h: "\<forall>d \<in> set [[(''x'', VNull)], [(''y'', VNum js_one)], [(''x'', VStr ''abc'')]].
             \<not> is_numeric example_runtime (get_prop d ''x'')"
    by (simp add: is_numeric_def get_prop_def objectPrototypeKeys_def example_runtime_def
        is_digit_def fge_def)
  show ?thesis
    using no_numeric_values_give_zero [OF h] h by simp
qed

section \<open>Imputation\<close>

lemma fold_update_from:
  "n + k \<le> length xs \<Longrightarrow>
     fold (\<lambda>i xs. xs[i := g (xs ! i)]) [n..<n + k] xs =
       take n xs @ map g (take k (drop n xs)) @ drop (n + k) xs"
proof (induction k)
  case 0
  then show ?case by simp
next
  case (Suc k)
  then have k: "n + k < length xs" by simp
  let ?ys = "take n xs @ map g (take k (drop n xs)) @ drop (n + k) xs"
  have len: "length (take n xs @ map g (take k (drop n xs))) = n + k"
    using k by simp
  have "fold (\<lambda>i xs. xs[i := g (xs ! i)]) [n..<n + Suc k] xs = ?ys[n + k := g (?ys ! (n + k))]"
    using Suc by simp
  also have "?ys ! (n + k) = xs ! (n + k)"
    using k nth_append_length_plus [of "take n xs @ map g (take k (drop n xs))" "drop (n + k) xs" 0] len
    by simp
  also have "?ys[n + k := g (xs ! (n + k))] =
      (take n xs @ map g (take k (drop n xs))) @ (drop (n + k) xs)[0 := g (xs ! (n + k))]"
    using len by (simp add: list_update_append)
  also have "(drop (n + k) xs)[0 := g (xs ! (n + k))] = g (xs ! (n + k)) # drop (n + Suc k) xs"
    using k by (simp add: Cons_nth_drop_Suc [symmetric])
  also have "(take n xs @ map g (take k (drop n xs))) @ g (xs ! (n + k)) # drop (n + Suc k) xs =
      take n xs @ map g (take (Suc k) (drop n xs)) @ drop (n + Suc k) xs"
    using k by (simp add: take_Suc_conv_app_nth)
  finally show ?case .
qed

lemma impute_rows:
  "fold (impute_row variable v) [length h ..< length h + length cs] (h @ cs) =
     h @ map (imputed variable v) cs"
proof -
  have "impute_row variable v = (\<lambda>i xs. xs[i := imputed variable v (xs ! i)])"
    by (intro ext) (simp add: impute_row_def)
  then show ?thesis
    using fold_update_from [of "length h" "length cs" "h @ cs" "imputed variable v"] by simp
qed

lemma imputeMissingValues_closed_form:
  "imputeMissingValues rt h data variable method =
     ([length h ..< length h + length data],
      h @ map (\<lambda>a. imputed variable
                 (valueToImpute rt
                    (filter (\<lambda>d. \<not> is_missing (get_prop d variable)) (deref h data)) variable
                    (case method of None \<Rightarrow> ''mean'' | Some m \<Rightarrow> m))
                 (json_clone (h ! a))) data)"
  using impute_rows [of variable _ h "map json_clone (deref h data)"]
  by (simp add: imputeMissingValues_def Let_def deref_def comp_def)

lemma map_of_replace:
  "map_of (map (\<lambda>p. if fst p = k then (k, v) else p) ps) k' =
     (if k' = k \<and> k \<in> fst ` set ps then Some v else map_of ps k')"
  by (induction ps) (force split: if_splits)+

lemma map_of_insert_index:
  "map_of (insert_index i (k, v) ps) k' = (if k' = k then Some v else map_of ps k')"
  if "k \<notin> fst ` set ps"
  using that by (induction ps) (auto split: option.splits)

lemma map_of_set_prop:
  "map_of (set_prop ps k v) k' = (if k' = k then Some v else map_of ps k')"
proof (cases "k \<in> fst ` set ps")
  case True
  then show ?thesis by (simp add: set_prop_def map_of_replace)
next
  case False
  then have "map_of ps k = None" by (simp add: map_of_eq_None_iff)
  with False show ?thesis
    by (auto simp: set_prop_def map_of_insert_index map_add_def split: option.splits)
qed

lemma get_prop_set_prop:
  "get_prop (set_prop d k v) k' = (if k' = k then v else get_prop d k')"
  by (simp add: get_prop_def map_of_set_prop)

lemma keys_insert_index: "fst ` set (insert_index i kv ps) = insert (fst kv) (fst ` set ps)"
  by (induction ps) (auto split: option.splits)

lemma keys_replace: "map fst (map (\<lambda>p. if fst p = k then (k, v) else p) ps) = map fst ps"
  by (induction ps) auto

lemma keys_set_prop: "fst ` set (set_prop ps k v) = insert k (fst ` set ps)"
proof (cases "k \<in> fst ` set ps")
  case True
  have "fst ` set (map (\<lambda>p. if fst p = k then (k, v) else p) ps) = fst ` set ps"
    using keys_replace [of k v ps] by (metis set_map)
  with True show ?thesis by (auto simp: set_prop_def)
next
  case False
  then show ?thesis
    by (auto simp: set_prop_def keys_insert_index split: option.splits)
qed

lemma imputed_not_missing:
  "\<not> is_missing v \<Longrightarrow> \<not> is_missing (get_prop (imputed variable v d) variable)"
  by (simp add: imputed_def get_prop_set_prop)

lemma valueToImpute_not_missing:
  "method \<in> {''mean'', ''median'', ''mode''} \<Longrightarrow>
     \<not> is_missing (valueToImpute rt present variable method)"
  by (auto simp: valueToImpute_def is_missing_def split: list.splits)

lemma countMissingValues_set:
  "data \<noteq> [] \<Longrightarrow>
     set (countMissingValues data) =
       (\<lambda>variable.
          \<lparr>mr_variable = variable,
           mr_count = length (filter (\<lambda>d. is_missing (get_prop d variable)) data),
           mr_percentage = fmul (fdiv (num_of_nat (length (filter (\<lambda>d. is_missing (get_prop d variable)) data)))
                                   (num_of_nat (length data))) (num_of_nat 100)\<rparr>) ` fst ` set (data ! 0)"
  by (simp add: countMissingValues_def Let_def image_image)

lemma countMissingValues_count:
  "r \<in> set (countMissingValues data) \<Longrightarrow>
     mr_count r = length (filter (\<lambda>d. is_missing (get_prop d (mr_variable r))) data)"
  by (cases "data = []") (auto simp: countMissingValues_set, simp add: countMissingValues_def)

lemma countMissingValues_entry:
  "data \<noteq> [] \<Longrightarrow> variable \<in> fst ` set (data ! 0) \<Longrightarrow>
     \<exists>r \<in> set (countMissingValues data). mr_variable r = variable \<and>
       mr_count r = length (filter (\<lambda>d. is_missing (get_prop d variable)) data)"
  by (auto simp: countMissingValues_set)

lemma own_or_inherited:
  "get_prop d k \<noteq> VUndef \<Longrightarrow> k \<notin> set objectPrototypeKeys \<Longrightarrow> k \<in> fst ` set d"
  by (auto simp: get_prop_def split: option.splits dest: map_of_SomeD intro: rev_image_eqI)

lemma imputed_owns:
  assumes "k \<notin> set objectPrototypeKeys"
  shows "k \<in> fst ` set (imputed k v d)"
proof (cases "is_missing (get_prop d k)")
  case True
  then show ?thesis by (simp add: imputed_def keys_set_prop)
next
  case False
  then have "get_prop d k \<noteq> VUndef" by (auto simp: is_missing_def)
  with assms False show ?thesis by (simp add: imputed_def own_or_inherited)
qed

lemma deref_new:
  "deref (h @ cs) [length h ..< length h + length cs] = cs"
  by (auto simp: deref_def intro!: nth_equalityI)

lemma deref_old:
  "\<forall>a \<in> set data. a < length h \<Longrightarrow> deref (h @ cs) data = deref h data"
  by (simp add: deref_def nth_append)

lemma map_of_json_fold:
  "distinct (map fst d) \<Longrightarrow> fst ` set d \<inter> fst ` set acc = {} \<Longrightarrow>
     map_of (fold (\<lambda>(k, v) d'. case json_value v of None \<Rightarrow> d' | Some v' \<Rightarrow> set_prop d' k v') d acc) k =
       (case map_of d k of None \<Rightarrow> map_of acc k | Some v \<Rightarrow> json_value v)"
proof (induction d arbitrary: acc)
  case Nil
  then show ?case by simp
next
  case (Cons p d)
  obtain k0 v0 where p: "p = (k0, v0)" by (cases p)
  let ?acc = "case json_value v0 of None \<Rightarrow> acc | Some v' \<Rightarrow> set_prop acc k0 v'"
  have k0: "k0 \<notin> fst ` set d" "k0 \<notin> fst ` set acc"
    using Cons.prems p by auto
  have keys: "fst ` set ?acc \<subseteq> insert k0 (fst ` set acc)"
    by (auto simp: keys_set_prop split: option.splits)
  have "fst ` set d \<inter> insert k0 (fst ` set acc) = {}"
    using Cons.prems(2) k0 p by auto
  with keys have disj: "fst ` set d \<inter> fst ` set ?acc = {}"
    by blast
  have d: "distinct (map fst d)"
    using Cons.prems by simp
  have IH: "map_of (fold (\<lambda>(k, v) d'. case json_value v of None \<Rightarrow> d' | Some v' \<Rightarrow> set_prop d' k v') d ?acc) k =
       (case map_of d k of None \<Rightarrow> map_of ?acc k | Some v \<Rightarrow> json_value v)"
    by (rule Cons.IH [OF d disj])
  have none: "map_of d k0 = None" "map_of acc k0 = None"
    using k0 by (simp_all add: map_of_eq_None_iff)
  show ?case
  proof (cases "k = k0")
    case True
    then show ?thesis
      using IH none by (simp add: p map_of_set_prop split: option.splits)
  next
    case False
    then show ?thesis
      using IH by (simp add: p map_of_set_prop split: option.splits)
  qed
qed

lemma map_of_json_clone:
  "distinct (map fst d) \<Longrightarrow>
     map_of (json_clone d) k = (case map_of d k of None \<Rightarrow> None | Some v \<Rightarrow> json_value v)"
  using map_of_json_fold [of d "[]" k] by (simp add: json_clone_def split: option.splits)

lemma json_scalar_value:
  "json_scalar v \<Longrightarrow> \<exists>v'. json_value v = Some v' \<and> strict_equal v' v \<and> is_missing v' = is_missing v"
  by (cases v rule: json_scalar.cases) (auto simp: is_missing_def js_zero_def)

lemma strict_equal_fallback:
  "strict_equal (if k \<in> set objectPrototypeKeys then VBuiltin k else VUndef)
     (if k \<in> set objectPrototypeKeys then VBuiltin k else VUndef)"
  by simp

lemma get_prop_json_clone:
  assumes "json_record d"
  shows "strict_equal (get_prop (json_clone d) k) (get_prop d k) \<and>
         is_missing (get_prop (json_clone d) k) = is_missing (get_prop d k)"
proof (cases "map_of d k")
  case None
  then show ?thesis
    using assms by (simp add: get_prop_def map_of_json_clone json_record_def)
next
  case (Some v)
  then have "(k, v) \<in> set d" by (rule map_of_SomeD)
  then have "json_scalar v"
    using assms by (auto simp: json_record_def list_all_iff)
  from json_scalar_value [OF this] Some assms show ?thesis
    by (auto simp: get_prop_def map_of_json_clone json_record_def)
qed

lemma arr_x: "array_index ''x'' = None" "array_index ''y'' = None"
  by (simp_all add: array_index_def is_digit_def)

lemma example_mode:
  "imputeMissingValues example_runtime
     [[(''x'', VNull), (''y'', VStr ''a'')], [(''x'', VStr ''b'')]] [0, 1] ''x'' (Some ''mode'') =
   ([2, 3],
    [[(''x'', VNull), (''y'', VStr ''a'')], [(''x'', VStr ''b'')],
     [(''x'', VStr ''b''), (''y'', VStr ''a'')], [(''x'', VStr ''b'')]])"
  by (simp add: imputeMissingValues_closed_form valueToImpute_def imputed_def json_clone_def
      set_prop_def arr_x get_prop_def is_missing_def deref_def calculateFrequencies_def
      rollup_count_def)

text \<open>
  Claim C4.  For every dataset whose records live in the store, every field and each of
  the methods \<open>'mean'\<close>, \<open>'median'\<close> and \<open>'mode'\<close> (or none, which is \<open>'mean'\<close>),
  \<open>imputeMissingValues\<close> leaves the input as it was: every object of the old store is
  unchanged and the records of the result are new objects.  The result has as many
  records as the input, none of them is missing the field, and \<open>countMissingValues\<close>
  on the result reports no missing value for the field: an entry for the field has the
  count 0, and there is such an entry when the dataset is not empty and the field does
  not name a member of \<open>Object.prototype\<close>.
\<close>

theorem imputation_copies_and_fills:
  assumes wf: "\<forall>a \<in> set data. a < length h"
    and m: "method \<in> {None, Some ''mean'', Some ''median'', Some ''mode''}"
  shows "case imputeMissingValues rt h data variable method of
           (newData, h') \<Rightarrow>
             deref h' data = deref h data \<and> take (length h) h' = h \<and>
             (\<forall>a \<in> set newData. length h \<le> a \<and> a < length h') \<and>
             length newData = length data \<and>
             filter (\<lambda>d. is_missing (get_prop d variable)) (deref h' newData) = [] \<and>
             (\<forall>r \<in> set (countMissingValues (deref h' newData)).
                mr_variable r = variable \<longrightarrow> mr_count r = 0) \<and>
             (data \<noteq> [] \<and> variable \<notin> set objectPrototypeKeys \<longrightarrow>
                (\<exists>r \<in> set (countMissingValues (deref h' newData)).
                   mr_variable r = variable \<and> mr_count r = 0))"
proof -
  let ?m = "case method of None \<Rightarrow> ''mean'' | Some m \<Rightarrow> m"
  let ?v = "valueToImpute rt
              (filter (\<lambda>d. \<not> is_missing (get_prop d variable)) (deref h data)) variable ?m"
  let ?cs = "map (\<lambda>a. imputed variable ?v (json_clone (h ! a))) data"
  let ?new = "[length h ..< length h + length data]"
  have res: "imputeMissingValues rt h data variable method = (?new, h @ ?cs)"
    by (rule imputeMissingValues_closed_form)
  have "?m \<in> {''mean'', ''median'', ''mode''}"
    using m by auto
  then have v: "\<not> is_missing ?v"
    by (rule valueToImpute_not_missing)
  have new: "deref (h @ ?cs) ?new = ?cs"
    using deref_new [of h ?cs] by simp
  have none: "filter (\<lambda>d. is_missing (get_prop d variable)) ?cs = []"
    using v by (simp add: filter_empty_conv imputed_not_missing)
  have zero: "\<forall>r \<in> set (countMissingValues ?cs). mr_variable r = variable \<longrightarrow> mr_count r = 0"
    using none by (auto dest: countMissingValues_count)
  have entry: "\<exists>r \<in> set (countMissingValues ?cs). mr_variable r = variable \<and> mr_count r = 0"
    if "data \<noteq> []" "variable \<notin> set objectPrototypeKeys"
  proof -
    from that have "?cs \<noteq> []" "variable \<in> fst ` set (?cs ! 0)"
      by (simp_all add: imputed_owns nth_map [of 0 data])
    from countMissingValues_entry [OF this] none show ?thesis by simp
  qed
  show ?thesis
    unfolding res using wf new none zero entry by (simp add: deref_old)
qed

theorem imputation_copies_and_fills_witness:
  "(0::nat) < length [[(''x'', VNull), (''y'', VStr ''a'')], [(''x'', VStr ''b'')]] \<and>
   (1::nat) < length [[(''x'', VNull), (''y'', VStr ''a'')], [(''x'', VStr ''b'')]] \<and>
   Some ''mode'' \<in> {None, Some ''mean'', Some ''median'', Some ''mode''} \<and>
   imputeMissingValues example_runtime
     [[(''x'', VNull), (''y'', VStr ''a'')], [(''x'', VStr ''b'')]] [0, 1] ''x'' (Some ''mode'') =
   ([2, 3],
    [[(''x'', VNull), (''y'', VStr ''a'')], [(''x'', VStr ''b'')],
     [(''x'', VStr ''b''), (''y'', VStr ''a'')], [(''x'', VStr ''b'')]]) \<and>
   filter (\<lambda>d. is_missing (get_prop d ''x''))
     [[(''x'', VStr ''b''), (''y'', VStr ''a'')], [(''x'', VStr ''b'')]] = [] \<and>
   (\<exists>r \<in> set (countMissingValues [[(''x'', VStr ''b''), (''y'', VStr ''a'')], [(''x'', VStr ''b'')]]).
      mr_variable r = ''x'' \<and> mr_count r = 0)"
proof -
  have wf: "\<forall>a \<in> set [0, 1]. a < length [[(''x'', VNull), (''y'', VStr ''a'')], [(''x'', VStr ''b'')]]"
    by simp
  have m: "Some ''mode'' \<in> {None, Some ''mean'', Some ''median'', Some ''mode''}"
    by simp
  show ?thesis
    using imputation_copies_and_fills [OF wf m, where rt = example_runtime and variable = "''x''"]
    unfolding example_mode
    by (simp add: deref_def objectPrototypeKeys_def get_prop_def is_missing_def)
qed

text \<open>
  Claim C9.  For every dataset whose records hold values that \<open>JSON.stringify\<close> writes
  as they are, and every method, the record \<open>i\<close> of the result agrees with the record
  \<open>i\<close> of the input, under \<open>===\<close>, at every field other than the imputed one and at
  the imputed field when its value is not missing there.  (Only minus zero comes back
  as another bit pattern, zero, which \<open>===\<close> does not tell apart.)
\<close>

theorem imputation_changes_only_missing_values:
  assumes wf: "\<forall>a \<in> set data. a < length h \<and> json_record (h ! a)"
    and i: "i < length data"
    and k: "k \<noteq> variable \<or> \<not> is_missing (get_prop (h ! (data ! i)) k)"
  shows "case imputeMissingValues rt h data variable method of
           (newData, h') \<Rightarrow>
             strict_equal (get_prop (h' ! (newData ! i)) k) (get_prop (h ! (data ! i)) k)"
proof -
  let ?m = "case method of None \<Rightarrow> ''mean'' | Some m \<Rightarrow> m"
  let ?v = "valueToImpute rt
              (filter (\<lambda>d. \<not> is_missing (get_prop d variable)) (deref h data)) variable ?m"
  let ?cs = "map (\<lambda>a. imputed variable ?v (json_clone (h ! a))) data"
  let ?new = "[length h ..< length h + length data]"
  let ?d = "h ! (data ! i)"
  have res: "imputeMissingValues rt h data variable method = (?new, h @ ?cs)"
    by (rule imputeMissingValues_closed_form)
  have rec: "json_record ?d"
    using wf i by simp
  have at: "(h @ ?cs) ! (?new ! i) = imputed variable ?v (json_clone ?d)"
    using i by (simp add: nth_append)
  have "get_prop (imputed variable ?v (json_clone ?d)) k = get_prop (json_clone ?d) k"
    using k get_prop_json_clone [OF rec, of variable]
    by (auto simp: imputed_def get_prop_set_prop)
  with get_prop_json_clone [OF rec, of k] show ?thesis
    unfolding res by (simp add: at del: upt_Suc)
qed

theorem imputation_changes_only_missing_values_witness:
  "(0::nat) < length [[(''x'', VNull), (''y'', VNum (Fin True 0 (- 1074)))], [(''x'', VStr ''b'')]] \<and>
   json_record [(''x'', VNull), (''y'', VNum (Fin True 0 (- 1074)))] \<and>
   json_record [(''x'', VStr ''b'')] \<and>
   ''y'' \<noteq> ''x'' \<and>
   (case imputeMissingValues example_runtime
      [[(''x'', VNull), (''y'', VNum (Fin True 0 (- 1074)))], [(''x'', VStr ''b'')]] [0, 1] ''x''
      (Some ''mode'') of
      (newData, h') \<Rightarrow>
        strict_equal (get_prop (h' ! (newData ! 0)) ''y'') (VNum (Fin True 0 (- 1074))))"
proof -
  have wf: "\<forall>a \<in> set [0, 1].
      a < length [[(''x'', VNull), (''y'', VNum (Fin True 0 (- 1074)))], [(''x'', VStr ''b'')]] \<and>
      json_record ([[(''x'', VNull), (''y'', VNum (Fin True 0 (- 1074)))], [(''x'', VStr ''b'')]] ! a)"
    by (simp add: json_record_def)
  have i: "0 < length [0::nat, 1]"
    by simp
  have k: "''y'' \<noteq> ''x'' \<or>
      \<not> is_missing (get_prop ([[(''x'', VNull), (''y'', VNum (Fin True 0 (- 1074)))], [(''x'', VStr ''b'')]] ! ([0, 1] ! 0)) ''y'')"
    by simp
  show ?thesis
    using imputation_changes_only_missing_values
      [of _ _ _ _ _ example_runtime "Some ''mode''", OF wf i k] wf
    by (simp add: get_prop_def)
qed

text \<open>
  Claim C2, as amended.  For every dataset and field, \<open>imputeMissingValues\<close> called with
  a method that is not \<open>'mean'\<close>, \<open>'median'\<close> or \<open>'mode'\<close> returns as it does for these:
  no branch of the chain is taken, the value to impute stays \<open>undefined\<close>, and the result
  is the copy of the dataset with \<open>undefined\<close> stored in the field wherever it was
  missing.  The type of the parameter admits the three methods only, and nothing in
  the function checks it.
\<close>

theorem unknown_method_fills_undefined:
  assumes "m \<notin> {''mean'', ''median'', ''mode''}"
  shows "imputeMissingValues rt h data variable (Some m) =
           ([length h ..< length h + length data],
            h @ map (\<lambda>a. imputed variable VUndef (json_clone (h ! a))) data)"
  using assms by (simp add: imputeMissingValues_closed_form valueToImpute_def)

theorem unknown_method_fills_undefined_witness:
  "''max'' \<notin> {''mean'', ''median'', ''mode''} \<and>
   imputeMissingValues example_runtime
     [[(''x'', VStr []), (''y'', VStr ''a'')], [(''y'', VStr ''b'')], [(''x'', VStr ''c'')]]
     [0, 1, 2] ''x'' (Some ''max'') =
   ([3, 4, 5],
    [[(''x'', VStr []), (''y'', VStr ''a'')], [(''y'', VStr ''b'')], [(''x'', VStr ''c'')],
     [(''x'', VUndef), (''y'', VStr ''a'')], [(''y'', VStr ''b''), (''x'', VUndef)],
     [(''x'', VStr ''c'')]])"
proof -
  have m: "''max'' \<notin> {''mean'', ''median'', ''mode''}"
    by simp
  show ?thesis
    using unknown_method_fills_undefined [OF m, where rt = example_runtime
        and h = "[[(''x'', VStr []), (''y'', VStr ''a'')], [(''y'', VStr ''b'')], [(''x'', VStr ''c'')]]"
        and data = "[0, 1, 2]" and variable = "''x''"]
    by (simp add: imputed_def json_clone_def set_prop_def arr_x get_prop_def is_missing_def
        objectPrototypeKeys_def)
qed

text \<open>
  The claim C2 as stated, that such a call fails with an error, is false: with the
  method \<open>'max'\<close> the call returns the copied dataset, \<open>undefined\<close> in place of \<open>null\<close>.
\<close>

theorem unknown_method_counterexample:
  "imputeMissingValues example_runtime [[(''x'', VNull), (''y'', VStr ''a'')]] [0] ''x'' (Some ''max'') =
     ([1], [[(''x'', VNull), (''y'', VStr ''a'')], [(''x'', VUndef), (''y'', VStr ''a'')]])"
  by (simp add: imputeMissingValues_closed_form valueToImpute_def imputed_def json_clone_def
      set_prop_def arr_x get_prop_def is_missing_def)

end
